theory Spec2Isabelle
  imports Main "HOL-Library.Word"
begin

section \<open>The causal view store: data\<close>

text \<open>
  The three enumerations of the store are TypeScript string enums: at run time a value of
  such a type is the string on the right of its declaration, and a \<open>switch\<close> over it has
  a \<open>default\<close> branch for every other string. They are modelled as strings, with one
  constant for each declared member.
\<close>

type_synonym NodeSelectionMode = string

definition NONE :: NodeSelectionMode where "NONE = ''0''"
definition SINGLE :: NodeSelectionMode where "SINGLE = ''1''"
definition DOUBLE :: NodeSelectionMode where "DOUBLE = ''2''"
definition MULTIPLE :: NodeSelectionMode where "MULTIPLE = ''n''"

type_synonym ExplorationKey = string

definition AUTO_VIS :: ExplorationKey where "AUTO_VIS = ''AutoVis''"
definition HYPOTHESIS_TEST :: ExplorationKey where "HYPOTHESIS_TEST = ''HypothesisTest''"
definition WHAT_IF :: ExplorationKey where "WHAT_IF = ''WhatIf''"
definition CROSS_FILTER :: ExplorationKey where "CROSS_FILTER = ''CrossFilter''"
definition CAUSAL_INSIGHT :: ExplorationKey where "CAUSAL_INSIGHT = ''CausalInsight''"
definition GRAPHIC_WALKER :: ExplorationKey where "GRAPHIC_WALKER = ''GraphicWalker''"
definition PREDICT :: ExplorationKey where "PREDICT = ''predict''"

type_synonym LayoutMethod = string

definition FORCE :: LayoutMethod where "FORCE = ''force''"
definition CIRCULAR :: LayoutMethod where "CIRCULAR = ''circular''"
definition RADIAL :: LayoutMethod where "RADIAL = ''radial''"
definition GRID :: LayoutMethod where "GRID = ''grid''"

text \<open>
  A JavaScript number is an IEEE 754 double; it is held as its 64 bits. The operations on
  doubles that the store calls are those of the engine that runs it; they are taken
  together as a parameter \<open>js_math\<close>: \<open>Math.exp\<close>, \<open>Math.floor\<close>, the four arithmetic
  operators, and the conversion of a number to a string in a template literal.
\<close>

type_synonym number = "64 word"

record js_math =
  Math_exp :: "number \<Rightarrow> number"
  Math_floor :: "number \<Rightarrow> number"
  num_add :: "number \<Rightarrow> number \<Rightarrow> number"
  num_sub :: "number \<Rightarrow> number \<Rightarrow> number"
  num_mul :: "number \<Rightarrow> number \<Rightarrow> number"
  num_div :: "number \<Rightarrow> number \<Rightarrow> number"
  num_toString :: "number \<Rightarrow> string"

text \<open>The doubles of the literals of the source, and the \<open>NaN\<close> that \<open>undefined\<close> converts to.\<close>

definition num_1 :: number where "num_1 = 0x3FF0000000000000"
definition num_neg_1 :: number where "num_neg_1 = 0xBFF0000000000000"
definition num_2 :: number where "num_2 = 0x4000000000000000"
definition num_95 :: number where "num_95 = 0x4057C00000000000"
definition num_149 :: number where "num_149 = 0x4062A00000000000"
definition num_NaN :: number where "num_NaN = 0x7FF8000000000000"

text \<open>The double \<open>-0\<close>; the double \<open>+0\<close> is the word \<open>0\<close>.\<close>

definition num_neg_0 :: number where "num_neg_0 = 0x8000000000000000"

text \<open>
  An entity (\<open>IFieldMeta\<close>): the store reads its identifier \<open>fid\<close> and, in the default node
  renderer, \<open>features.entropy\<close>. \<open>features = None\<close> is an entity without \<open>features\<close> object,
  \<open>entropy = None\<close> a \<open>features\<close> object without \<open>entropy\<close>.
\<close>

record IFieldMeta_features =
  entropy :: "number option"

record IFieldMeta =
  fid :: string
  features :: "IFieldMeta_features option"

text \<open>\<open>GraphNodeAttributes\<close>: \<open>stroke\<close> is \<open>style.stroke\<close>.\<close>

record GraphNodeAttributes =
  stroke :: string

datatype js_error = TypeError

text \<open>
  Listener callbacks are compared by reference; a callback is modelled by its identity. A
  node renderer is a function from the entity to \<open>GraphNodeAttributes | undefined\<close> that
  may throw; it computes with the operations of the engine.
\<close>

type_synonym callback = nat

type_synonym NodeRenderer = "js_math \<Rightarrow> IFieldMeta \<Rightarrow> js_error + GraphNodeAttributes option"

datatype listener_key = nodeClick | nodeDoubleClick

datatype reaction = MergedPagReaction | ExplorationKeyReaction | SelectionModeReaction

datatype subscription = SelectedFidArrSubscription

datatype teardown_call =
  Dispose reaction | Unsubscribe subscription | ResetListeners listener_key

text \<open>
  The state of one \<open>CausalViewStore\<close>. The first six fields are fields of the class
  (\<open>selectedNodes\<close> is \<open>_selectedNodes\<close>). The others make the effects of the code explicit:
  \<^item> \<open>fields_latest\<close>: the latest value that \<open>fields$\<close> has emitted, as \<open>withLatestFrom\<close>
    keeps it (\<open>None\<close> while it has emitted nothing);
  \<^item> \<open>live_reactions\<close>, \<open>live_subscriptions\<close>: the members of \<open>mobxReactions\<close> and
    \<open>rxReactions\<close> that are not yet disposed;
  \<^item> \<open>written\<close>: every value passed to \<open>selectedFidArr$.next\<close>, in order, each with the
    selection mode at that moment;
  \<^item> \<open>console\<close>: the arguments of every \<open>console.warn\<close>, in order;
  \<^item> \<open>teardown\<close>: the calls \<open>destroy\<close> has made, in order.
\<close>

record CausalViewStore =
  explorationKey :: ExplorationKey
  graphNodeSelectionMode :: NodeSelectionMode
  selectedNodes :: "IFieldMeta list"
  layoutMethod :: LayoutMethod
  onRenderNode :: "NodeRenderer option"
  listeners :: "listener_key \<Rightarrow> callback list"
  fields_latest :: "IFieldMeta list option"
  live_reactions :: "reaction list"
  live_subscriptions :: "subscription list"
  written :: "(NodeSelectionMode \<times> string list) list"
  console :: "(string \<times> IFieldMeta list) list"
  teardown :: "teardown_call list"

definition selectedFieldGroup :: "CausalViewStore \<Rightarrow> IFieldMeta list" where
  "selectedFieldGroup s = selectedNodes s"

definition selectedField :: "CausalViewStore \<Rightarrow> IFieldMeta option" where
  "selectedField s = (case selectedNodes s of [] \<Rightarrow> None | f # _ \<Rightarrow> Some f)"

section \<open>Array operations of JavaScript\<close>

text \<open>\<open>xs.slice(start)\<close>: a negative \<open>start\<close> counts from the end.\<close>

definition slice_from :: "int \<Rightarrow> 'a list \<Rightarrow> 'a list" where
  "slice_from start xs =
     (let n = int (length xs);
          k = (if start < 0 then max (n + start) 0 else min start n)
      in drop (nat k) xs)"

text \<open>\<open>xs.findIndex(p)\<close>: the first index whose element satisfies \<open>p\<close>, or \<open>-1\<close>.\<close>

fun findIndex :: "('a \<Rightarrow> bool) \<Rightarrow> 'a list \<Rightarrow> int" where
  "findIndex p [] = -1"
| "findIndex p (x # xs) =
     (if p x then 0 else (let i = findIndex p xs in if i = -1 then -1 else i + 1))"

text \<open>\<open>xs.splice(start, 1)\<close>: the array without the element at \<open>start\<close>.\<close>

definition splice1 :: "int \<Rightarrow> 'a list \<Rightarrow> 'a list" where
  "splice1 start xs =
     (let n = int (length xs);
          k = (if start < 0 then max (n + start) 0 else min start n)
      in take (nat k) xs @ drop (nat k + 1) xs)"

section \<open>The default node renderer\<close>

text \<open>
  The arrow function that the constructor assigns to \<open>onRenderNode\<close>. Reading
  \<open>node.features.entropy\<close> throws a \<open>TypeError\<close> when \<open>node.features\<close> is \<open>undefined\<close>; an
  \<open>entropy\<close> that is \<open>undefined\<close> becomes \<open>NaN\<close> in the product.
\<close>

definition defaultOnRenderNode :: NodeRenderer where
  "defaultOnRenderNode M node =
     (case features node of
        None \<Rightarrow> Inl TypeError
      | Some ft \<Rightarrow>
          (let e = (case entropy ft of None \<Rightarrow> num_NaN | Some n \<Rightarrow> n);
               v = num_sub M
                     (num_div M num_2
                        (num_add M num_1 (Math_exp M (num_div M (num_mul M num_neg_1 e) num_2))))
                     num_1
           in Inr (Some \<lparr>stroke =
                ''rgb('' @ num_toString M (Math_floor M (num_mul M num_95 (num_sub M num_1 v))) @
                '','' @ num_toString M (Math_floor M (num_mul M num_149 (num_sub M num_1 v))) @
                '',255)''\<rparr>)))"

section \<open>Construction\<close>

definition mobxReactions :: "reaction list" where
  "mobxReactions = [MergedPagReaction, ExplorationKeyReaction, SelectionModeReaction]"

definition rxReactions :: "subscription list" where
  "rxReactions = [SelectedFidArrSubscription]"

text \<open>
  The state that the constructor builds, given what \<open>fields$\<close> has emitted when the
  subscription is set up: \<open>Some fs\<close> when the stream has fired with the value \<open>fs\<close> of
  \<open>causalStore.fields\<close>, \<open>None\<close> when it has not fired. A \<open>reaction\<close> does not run its
  effect when it is created.
\<close>

definition CausalViewStore_init :: "IFieldMeta list option \<Rightarrow> CausalViewStore" where
  "CausalViewStore_init emitted =
     \<lparr>explorationKey = AUTO_VIS,
      graphNodeSelectionMode = MULTIPLE,
      selectedNodes = [],
      layoutMethod = FORCE,
      onRenderNode = Some defaultOnRenderNode,
      listeners = (\<lambda>k. []),
      fields_latest = emitted,
      live_reactions = mobxReactions,
      live_subscriptions = rxReactions,
      written = [],
      console = [],
      teardown = []\<rparr>"



section \<open>The resolution pipeline\<close>

text \<open>
  The body of \<open>fidArr.reduce\<close>: the accumulator is the list of nodes; the warnings go to
  the console.
\<close>

definition warning_message :: "string \<Rightarrow> string" where
  "warning_message x = ''Select node warning: cannot find field '' @ x @ ''.''"

definition resolve_step ::
  "IFieldMeta list \<Rightarrow> IFieldMeta list \<times> (string \<times> IFieldMeta list) list \<Rightarrow> string
     \<Rightarrow> IFieldMeta list \<times> (string \<times> IFieldMeta list) list" where
  "resolve_step fs acc x =
     (case find (\<lambda>which. fid which = x) fs of
        Some f \<Rightarrow> (fst acc @ [f], snd acc)
      | None \<Rightarrow>
          (fst acc,
           snd acc @ [(warning_message x, fs)]))"

text \<open>The subscriber of \<open>selectedFidArr$.pipe(withLatestFrom(fields$))\<close>.\<close>

definition on_selectedFidArr ::
  "string list \<Rightarrow> IFieldMeta list \<Rightarrow> CausalViewStore \<Rightarrow> CausalViewStore" where
  "on_selectedFidArr fidArr fs s =
     (let r = foldl (resolve_step fs) ([], console s) fidArr
      in s\<lparr>selectedNodes := fst r, console := snd r\<rparr>)"

text \<open>
  \<open>selectedFidArr$.next(fidArr)\<close>. The subject calls its subscriber synchronously.
  \<open>withLatestFrom\<close> passes a value of the source on only once the other stream has
  emitted; until then the value is dropped.
\<close>

definition selectedFidArr_next :: "string list \<Rightarrow> CausalViewStore \<Rightarrow> CausalViewStore" where
  "selectedFidArr_next fidArr s =
     (let s1 = s\<lparr>written := written s @ [(graphNodeSelectionMode s, fidArr)]\<rparr>
      in if SelectedFidArrSubscription \<in> set (live_subscriptions s1) then
           (case fields_latest s1 of
              None \<Rightarrow> s1
            | Some fs \<Rightarrow> on_selectedFidArr fidArr fs s1)
         else s1)"

text \<open>\<open>fields$\<close> emits a new snapshot of \<open>causalStore.fields\<close>.\<close>

definition fields_changed :: "IFieldMeta list \<Rightarrow> CausalViewStore \<Rightarrow> CausalViewStore" where
  "fields_changed fs s =
     (if SelectedFidArrSubscription \<in> set (live_subscriptions s)
      then s\<lparr>fields_latest := Some fs\<rparr> else s)"

section \<open>The reactions\<close>

text \<open>
  A \<open>reaction\<close> runs its effect when the value of its data function has changed, and only
  while it is not disposed.
\<close>

text \<open>The effect of the reaction on \<open>graphNodeSelectionMode\<close>.\<close>

definition on_graphNodeSelectionMode ::
  "NodeSelectionMode \<Rightarrow> CausalViewStore \<Rightarrow> CausalViewStore" where
  "on_graphNodeSelectionMode m s =
     (if m = SINGLE \<or> m = DOUBLE then
        s\<lparr>selectedNodes :=
            slice_from (int (length (selectedNodes s)) - 1) (selectedNodes s)\<rparr>
      else if m = MULTIPLE then s
      else s\<lparr>selectedNodes := []\<rparr>)"

text \<open>An assignment to \<open>graphNodeSelectionMode\<close>, with the reaction it may trigger.\<close>

definition assign_graphNodeSelectionMode ::
  "NodeSelectionMode \<Rightarrow> CausalViewStore \<Rightarrow> CausalViewStore" where
  "assign_graphNodeSelectionMode m s =
     (let s1 = s\<lparr>graphNodeSelectionMode := m\<rparr>
      in if m \<noteq> graphNodeSelectionMode s \<and> SelectionModeReaction \<in> set (live_reactions s)
         then on_graphNodeSelectionMode m s1 else s1)"

text \<open>The effect of the reaction on \<open>explorationKey\<close>.\<close>

definition on_explorationKey :: "ExplorationKey \<Rightarrow> CausalViewStore \<Rightarrow> CausalViewStore" where
  "on_explorationKey k s =
     (if k = CAUSAL_INSIGHT \<or> k = PREDICT then assign_graphNodeSelectionMode SINGLE s
      else if k = AUTO_VIS \<or> k = CROSS_FILTER then assign_graphNodeSelectionMode MULTIPLE s
      else if k = HYPOTHESIS_TEST then assign_graphNodeSelectionMode DOUBLE s
      else assign_graphNodeSelectionMode NONE s)"

text \<open>\<open>causalStore.model.mergedPag\<close> changes.\<close>

definition mergedPag_changed :: "CausalViewStore \<Rightarrow> CausalViewStore" where
  "mergedPag_changed s =
     (if MergedPagReaction \<in> set (live_reactions s) then selectedFidArr_next [] s else s)"

section \<open>The public operations\<close>

definition setExplorationKey :: "ExplorationKey \<Rightarrow> CausalViewStore \<Rightarrow> CausalViewStore" where
  "setExplorationKey k s =
     (let s1 = s\<lparr>explorationKey := k\<rparr>
      in if k \<noteq> explorationKey s \<and> ExplorationKeyReaction \<in> set (live_reactions s)
         then on_explorationKey k s1 else s1)"

definition setNodeSelectionMode ::
  "NodeSelectionMode \<Rightarrow> CausalViewStore \<Rightarrow> CausalViewStore" where
  "setNodeSelectionMode selectionMode s = assign_graphNodeSelectionMode selectionMode s"

text \<open>
  \<open>toggleNodeSelected\<close> and \<open>selectNode\<close> return \<open>true\<close>, \<open>false\<close> or \<open>undefined\<close>
  (\<open>None\<close>), with the new state.
\<close>

definition toggleNodeSelected ::
  "string \<Rightarrow> CausalViewStore \<Rightarrow> bool option \<times> CausalViewStore" where
  "toggleNodeSelected x s =
     (if graphNodeSelectionMode s = SINGLE then
        (if map_option fid (selectedField s) = Some x
         then (Some False, selectedFidArr_next [] s)
         else (Some True, selectedFidArr_next [x] s))
      else if graphNodeSelectionMode s = DOUBLE then
        (if list_ex (\<lambda>f. fid f = x) (selectedFieldGroup s) then
           (Some False,
            selectedFidArr_next
              (map fid (filter (\<lambda>f. fid f \<noteq> x) (selectedFieldGroup s))) s)
         else if length (selectedFieldGroup s) = 0 then
           (Some True, selectedFidArr_next [x] s)
         else if length (selectedFieldGroup s) \<noteq> 1 then
           (Some False, s)
         else (Some False, selectedFidArr_next [fid (selectedFieldGroup s ! 0), x] s))
      else if graphNodeSelectionMode s = MULTIPLE then
        (let selectedFidArr = map fid (selectedFieldGroup s);
             matchedIndex = findIndex (\<lambda>f. f = x) selectedFidArr
         in (None,
             selectedFidArr_next
               (if matchedIndex \<noteq> -1 then splice1 matchedIndex selectedFidArr
                else selectedFidArr @ [x]) s))
      else (None, s))"

definition selectNode :: "string \<Rightarrow> CausalViewStore \<Rightarrow> bool option \<times> CausalViewStore" where
  "selectNode x s =
     (if graphNodeSelectionMode s = SINGLE then
        (if map_option fid (selectedField s) = Some x
         then (Some False, selectedFidArr_next [] s)
         else (Some True, selectedFidArr_next [x] s))
      else if graphNodeSelectionMode s = MULTIPLE then
        (let selectedFidArr = map fid (selectedFieldGroup s);
             matchedIndex = findIndex (\<lambda>f. f = x) selectedFidArr
         in (None,
             selectedFidArr_next
               (if matchedIndex = -1 then selectedFidArr @ [x] else selectedFidArr) s))
      else (None, s))"

definition clearSelected :: "CausalViewStore \<Rightarrow> CausalViewStore" where
  "clearSelected s = selectedFidArr_next [] s"

section \<open>Listeners and teardown\<close>

definition addEventListener ::
  "listener_key \<Rightarrow> callback \<Rightarrow> CausalViewStore \<Rightarrow> CausalViewStore" where
  "addEventListener eventName cb s =
     s\<lparr>listeners := (listeners s)(eventName := listeners s eventName @ [cb])\<rparr>"

definition removeEventListener ::
  "listener_key \<Rightarrow> callback \<Rightarrow> CausalViewStore \<Rightarrow> CausalViewStore" where
  "removeEventListener eventName cb s =
     s\<lparr>listeners := (listeners s)(eventName := filter (\<lambda>c. c \<noteq> cb) (listeners s eventName))\<rparr>"

definition dispose :: "CausalViewStore \<Rightarrow> reaction \<Rightarrow> CausalViewStore" where
  "dispose s r =
     s\<lparr>live_reactions := removeAll r (live_reactions s),
       teardown := teardown s @ [Dispose r]\<rparr>"

definition unsubscribe :: "CausalViewStore \<Rightarrow> subscription \<Rightarrow> CausalViewStore" where
  "unsubscribe s u =
     s\<lparr>live_subscriptions := removeAll u (live_subscriptions s),
       teardown := teardown s @ [Unsubscribe u]\<rparr>"

definition reset_listeners :: "CausalViewStore \<Rightarrow> listener_key \<Rightarrow> CausalViewStore" where
  "reset_listeners s k =
     s\<lparr>listeners := (listeners s)(k := []),
       teardown := teardown s @ [ResetListeners k]\<rparr>"

text \<open>\<open>Object.keys(this.listeners)\<close>, in the order of the object literal.\<close>

definition listener_keys :: "listener_key list" where
  "listener_keys = [nodeClick, nodeDoubleClick]"

definition destroy :: "CausalViewStore \<Rightarrow> CausalViewStore" where
  "destroy s =
     foldl reset_listeners
       (foldl unsubscribe (foldl dispose s mobxReactions) rxReactions)
       listener_keys"

section \<open>Runs of the store\<close>

text \<open>
  The five public selection operations and the two events of the upstream store, as
  commands; \<open>run\<close> executes a sequence of them from a state.
\<close>

datatype command =
  SetExplorationKey ExplorationKey
| SetNodeSelectionMode NodeSelectionMode
| ToggleNodeSelected string
| SelectNode string
| ClearSelected
| FieldsChanged "IFieldMeta list"
| MergedPagChanged

fun exec :: "command \<Rightarrow> CausalViewStore \<Rightarrow> CausalViewStore" where
  "exec (SetExplorationKey k) s = setExplorationKey k s"
| "exec (SetNodeSelectionMode m) s = setNodeSelectionMode m s"
| "exec (ToggleNodeSelected x) s = snd (toggleNodeSelected x s)"
| "exec (SelectNode x) s = snd (selectNode x s)"
| "exec ClearSelected s = clearSelected s"
| "exec (FieldsChanged fs) s = fields_changed fs s"
| "exec MergedPagChanged s = mergedPag_changed s"

definition run :: "command list \<Rightarrow> CausalViewStore \<Rightarrow> CausalViewStore" where
  "run cs s = foldl (\<lambda>t c. exec c t) s cs"

section \<open>The cardinality cap and the invariant of the store\<close>

text \<open>
  The cap of a selection mode: \<open>NONE\<close> allows no element, \<open>SINGLE\<close> one, \<open>DOUBLE\<close> two,
  \<open>MULTIPLE\<close> any number. A string that is no member of the enumeration is treated by
  the code as \<open>NONE\<close> is (the \<open>default\<close> branches), so its cap is 0 as well.
\<close>

definition within_cap :: "NodeSelectionMode \<Rightarrow> nat \<Rightarrow> bool" where
  "within_cap m n =
     (if m = SINGLE then n \<le> 1 else if m = DOUBLE then n \<le> 2
      else if m = MULTIPLE then True else n = 0)"

text \<open>What is asked of the values written to \<open>selectedFidArr$\<close>.\<close>

definition writes_ok :: "(NodeSelectionMode \<times> string list) list \<Rightarrow> bool" where
  "writes_ok ws = list_all (\<lambda>w. distinct (snd w) \<and> within_cap (fst w) (length (snd w))) ws"

text \<open>
  The invariant of a store that has not been destroyed: the reactions and the subscription
  are live, the selected nodes have distinct identifiers and respect the cap of the mode,
  nothing is selected while \<open>fields$\<close> has emitted nothing, and every written value is as
  asked.
\<close>

definition store_inv :: "CausalViewStore \<Rightarrow> bool" where
  "store_inv s =
     (SelectionModeReaction \<in> set (live_reactions s) \<and>
      ExplorationKeyReaction \<in> set (live_reactions s) \<and>
      MergedPagReaction \<in> set (live_reactions s) \<and>
      SelectedFidArrSubscription \<in> set (live_subscriptions s) \<and>
      distinct (map fid (selectedNodes s)) \<and>
      within_cap (graphNodeSelectionMode s) (length (selectedNodes s)) \<and>
      (fields_latest s = None \<longrightarrow> selectedNodes s = []) \<and>
      writes_ok (written s))"

section \<open>Example stores\<close>

text \<open>Three fields and some stores reached from the initial state, used as test inputs.\<close>

definition field_a :: IFieldMeta where
  "field_a = \<lparr>fid = ''a'', features = Some \<lparr>entropy = Some 0\<rparr>\<rparr>"

definition field_b :: IFieldMeta where
  "field_b = \<lparr>fid = ''b'', features = Some \<lparr>entropy = Some num_1\<rparr>\<rparr>"

definition field_c :: IFieldMeta where
  "field_c = \<lparr>fid = ''c'', features = Some \<lparr>entropy = Some num_2\<rparr>\<rparr>"

definition example_store :: "command list \<Rightarrow> CausalViewStore" where
  "example_store cs = run cs (CausalViewStore_init (Some [field_a, field_b, field_c]))"

definition double_empty :: CausalViewStore where
  "double_empty = example_store [SetNodeSelectionMode DOUBLE]"

definition double_one :: CausalViewStore where
  "double_one = example_store [SetNodeSelectionMode DOUBLE, ToggleNodeSelected ''a'']"

definition double_pair :: CausalViewStore where
  "double_pair =
     example_store [SetNodeSelectionMode DOUBLE, ToggleNodeSelected ''a'', ToggleNodeSelected ''b'']"

definition multiple_three :: CausalViewStore where
  "multiple_three =
     example_store [ToggleNodeSelected ''a'', ToggleNodeSelected ''b'', ToggleNodeSelected ''c'']"

definition single_b :: CausalViewStore where
  "single_b = example_store [SetNodeSelectionMode SINGLE, ToggleNodeSelected ''b'']"

definition with_listeners :: CausalViewStore where
  "with_listeners =
     addEventListener nodeClick 1 (addEventListener nodeDoubleClick 2 multiple_three)"

section \<open>Facts about the enumerations and the array operations\<close>

lemmas NodeSelectionMode_defs = NONE_def SINGLE_def DOUBLE_def MULTIPLE_def

lemmas ExplorationKey_defs =
  AUTO_VIS_def HYPOTHESIS_TEST_def WHAT_IF_def CROSS_FILTER_def CAUSAL_INSIGHT_def
  GRAPHIC_WALKER_def PREDICT_def

lemma findIndex_ge: "- 1 \<le> findIndex p xs"
  by (induction xs) (auto simp: Let_def)

lemma findIndex_none: "(findIndex p xs = - 1) = (\<forall>x \<in> set xs. \<not> p x)"
proof (induction xs)
  case Nil
  show ?case by simp
next
  case (Cons a xs)
  have "- 1 \<le> findIndex p xs" by (rule findIndex_ge)
  with Cons show ?case by (auto simp: Let_def)
qed

lemma findIndex_less: "findIndex p xs < int (length xs)"
  by (induction xs) (auto simp: Let_def)

lemma splice1_in_range:
  "0 \<le> i \<Longrightarrow> splice1 i xs = take (nat i) xs @ drop (Suc (nat i)) xs"
  by (auto simp: splice1_def Let_def min_def)

lemma distinct_take_drop: "distinct xs \<Longrightarrow> distinct (take k xs @ drop (Suc k) xs)"
  by (auto simp: set_take_disj_set_drop_if_distinct)

lemma distinct_splice1: "distinct xs \<Longrightarrow> distinct (splice1 i xs)"
  unfolding splice1_def Let_def Suc_eq_plus1 [symmetric] by (rule distinct_take_drop)

lemma length_splice1: "length (splice1 i xs) \<le> length xs"
  by (simp add: splice1_def Let_def)

lemma slice_from_last:
  "slice_from (int (length xs) - 1) xs = (if xs = [] then [] else [last xs])"
proof (cases xs rule: rev_cases)
  case Nil
  then show ?thesis by (simp add: slice_from_def)
next
  case (snoc ys y)
  then show ?thesis by (simp add: slice_from_def Let_def)
qed

lemma resolve_step_Some:
  "find (\<lambda>which. fid which = x) fs = Some f \<Longrightarrow>
   resolve_step fs acc x = (fst acc @ [f], snd acc)"
  by (simp add: resolve_step_def)

lemma resolve_step_None:
  "find (\<lambda>which. fid which = x) fs = None \<Longrightarrow>
   resolve_step fs acc x = (fst acc, snd acc @ [(warning_message x, fs)])"
  by (simp add: resolve_step_def)

lemma foldl_resolve_step:
  "foldl (resolve_step fs) acc ids =
     (fst acc @ List.map_filter (\<lambda>x. find (\<lambda>which. fid which = x) fs) ids,
      snd acc @ map (\<lambda>x. (warning_message x, fs))
        (filter (\<lambda>x. find (\<lambda>which. fid which = x) fs = None) ids))"
proof (induction ids arbitrary: acc)
  case Nil
  show ?case by (simp add: List.map_filter_simps)
next
  case (Cons a ids)
  show ?case
    by (cases "find (\<lambda>which. fid which = a) fs")
       (simp_all add: Cons resolve_step_Some resolve_step_None List.map_filter_simps)
qed

lemma find_fid: "find (\<lambda>which. fid which = x) fs = Some f \<Longrightarrow> fid f = x"
  by (auto simp: find_Some_iff)

lemma map_fid_resolved:
  "map fid (List.map_filter (\<lambda>x. find (\<lambda>which. fid which = x) fs) ids) =
   filter (\<lambda>x. find (\<lambda>which. fid which = x) fs \<noteq> None) ids"
proof (induction ids)
  case Nil
  show ?case by (simp add: List.map_filter_simps)
next
  case (Cons a ids)
  show ?case
    by (cases "find (\<lambda>which. fid which = a) fs")
       (auto simp: Cons List.map_filter_simps dest: find_fid)
qed


lemma mode_distinct [simp]:
  "NONE \<noteq> SINGLE" "NONE \<noteq> DOUBLE" "NONE \<noteq> MULTIPLE"
  "SINGLE \<noteq> NONE" "SINGLE \<noteq> DOUBLE" "SINGLE \<noteq> MULTIPLE"
  "DOUBLE \<noteq> NONE" "DOUBLE \<noteq> SINGLE" "DOUBLE \<noteq> MULTIPLE"
  "MULTIPLE \<noteq> NONE" "MULTIPLE \<noteq> SINGLE" "MULTIPLE \<noteq> DOUBLE"
  by (simp_all add: NodeSelectionMode_defs)

lemma within_cap_simps:
  "within_cap NONE n = (n = 0)"
  "within_cap SINGLE n = (n \<le> 1)"
  "within_cap DOUBLE n = (n \<le> 2)"
  "within_cap MULTIPLE n = True"
  by (simp_all add: within_cap_def)

lemma within_cap_mono: "within_cap m n \<Longrightarrow> k \<le> n \<Longrightarrow> within_cap m k"
  by (auto simp: within_cap_def split: if_splits)

lemma within_cap_0: "within_cap m 0"
  by (simp add: within_cap_def)

lemma on_selectedFidArr_simps:
  "selectedNodes (on_selectedFidArr ids fs s) =
     List.map_filter (\<lambda>x. find (\<lambda>which. fid which = x) fs) ids"
  "console (on_selectedFidArr ids fs s) =
     console s @ map (\<lambda>x. (warning_message x, fs))
       (filter (\<lambda>x. find (\<lambda>which. fid which = x) fs = None) ids)"
  "graphNodeSelectionMode (on_selectedFidArr ids fs s) = graphNodeSelectionMode s"
  "explorationKey (on_selectedFidArr ids fs s) = explorationKey s"
  "fields_latest (on_selectedFidArr ids fs s) = fields_latest s"
  "live_reactions (on_selectedFidArr ids fs s) = live_reactions s"
  "live_subscriptions (on_selectedFidArr ids fs s) = live_subscriptions s"
  "written (on_selectedFidArr ids fs s) = written s"
  by (simp_all add: on_selectedFidArr_def Let_def foldl_resolve_step)

lemma next_simps:
  "graphNodeSelectionMode (selectedFidArr_next ids s) = graphNodeSelectionMode s"
  "explorationKey (selectedFidArr_next ids s) = explorationKey s"
  "fields_latest (selectedFidArr_next ids s) = fields_latest s"
  "live_reactions (selectedFidArr_next ids s) = live_reactions s"
  "live_subscriptions (selectedFidArr_next ids s) = live_subscriptions s"
  "written (selectedFidArr_next ids s) = written s @ [(graphNodeSelectionMode s, ids)]"
  by (simp_all add: selectedFidArr_next_def Let_def on_selectedFidArr_simps split: option.split)

lemma next_selectedNodes:
  "selectedNodes (selectedFidArr_next ids s) =
     (if SelectedFidArrSubscription \<in> set (live_subscriptions s) then
        (case fields_latest s of
           None \<Rightarrow> selectedNodes s
         | Some fs \<Rightarrow> List.map_filter (\<lambda>x. find (\<lambda>which. fid which = x) fs) ids)
      else selectedNodes s)"
  by (simp add: selectedFidArr_next_def Let_def on_selectedFidArr_simps split: option.split)

lemma next_console:
  "console (selectedFidArr_next ids s) =
     (if SelectedFidArrSubscription \<in> set (live_subscriptions s) then
        (case fields_latest s of
           None \<Rightarrow> console s
         | Some fs \<Rightarrow> console s @ map (\<lambda>x. (warning_message x, fs))
             (filter (\<lambda>x. find (\<lambda>which. fid which = x) fs = None) ids))
      else console s)"
  by (simp add: selectedFidArr_next_def Let_def on_selectedFidArr_simps split: option.split)

lemma length_resolved:
  "length (List.map_filter (\<lambda>x. find (\<lambda>which. fid which = x) fs) ids) \<le> length ids"
proof -
  have "length (map fid (List.map_filter (\<lambda>x. find (\<lambda>which. fid which = x) fs) ids))
          \<le> length ids"
    unfolding map_fid_resolved by (rule length_filter_le)
  then show ?thesis by simp
qed

lemma store_inv_next:
  assumes "store_inv s" "distinct ids" "within_cap (graphNodeSelectionMode s) (length ids)"
  shows "store_inv (selectedFidArr_next ids s)"
proof -
  have d: "distinct (map fid (List.map_filter (\<lambda>x. find (\<lambda>which. fid which = x) fs) ids))" for fs
    unfolding map_fid_resolved using assms(2) by simp
  have c: "within_cap (graphNodeSelectionMode s)
             (length (List.map_filter (\<lambda>x. find (\<lambda>which. fid which = x) fs) ids))" for fs
    using assms(3) length_resolved by (rule within_cap_mono)
  from assms show ?thesis
    by (simp add: store_inv_def next_simps next_selectedNodes writes_ok_def d c within_cap_0
             split: option.split)
qed


lemma store_inv_init: "store_inv (CausalViewStore_init emitted)"
  by (simp add: store_inv_def CausalViewStore_init_def mobxReactions_def rxReactions_def
        within_cap_def writes_ok_def)

lemma slice_from_Nil [simp]: "slice_from i [] = []"
  by (simp add: slice_from_def)

lemma slice_from_last_props:
  "length (slice_from (int (length xs) - 1) xs) \<le> 1"
  "distinct (map f (slice_from (int (length xs) - 1) xs))"
  "xs = [] \<Longrightarrow> slice_from (int (length xs) - 1) xs = []"
  unfolding slice_from_last by simp_all

lemma within_cap_le_1: "m = SINGLE \<or> m = DOUBLE \<Longrightarrow> n \<le> 1 \<Longrightarrow> within_cap m n"
  by (auto simp: within_cap_def)

lemma store_inv_on_mode:
  assumes "store_inv s"
  shows "store_inv (on_graphNodeSelectionMode m (s\<lparr>graphNodeSelectionMode := m\<rparr>))"
proof -
  let ?sel = "slice_from (int (length (selectedNodes s)) - 1) (selectedNodes s)"
  have "m = SINGLE \<or> m = DOUBLE \<Longrightarrow> within_cap m (length ?sel)"
    by (rule within_cap_le_1) (assumption, rule slice_from_last_props(1))
  moreover have "within_cap MULTIPLE n" for n
    by (simp add: within_cap_simps)
  ultimately show ?thesis using assms
    by (auto simp: store_inv_def on_graphNodeSelectionMode_def slice_from_last_props within_cap_0)
qed

lemma store_inv_assign:
  assumes "store_inv s"
  shows "store_inv (assign_graphNodeSelectionMode m s)"
proof (cases "m = graphNodeSelectionMode s")
  case True
  with assms show ?thesis
    by (simp add: assign_graphNodeSelectionMode_def store_inv_def)
next
  case False
  with assms store_inv_on_mode [OF assms, of m] show ?thesis
    by (simp add: assign_graphNodeSelectionMode_def store_inv_def)
qed

lemma store_inv_explorationKey_update:
  "store_inv (s\<lparr>explorationKey := k\<rparr>) = store_inv s"
  by (simp add: store_inv_def)

lemma store_inv_setExplorationKey:
  assumes "store_inv s"
  shows "store_inv (setExplorationKey k s)"
  using assms
  by (simp add: setExplorationKey_def on_explorationKey_def Let_def store_inv_assign
        store_inv_explorationKey_update)

lemma store_inv_fields_changed: "store_inv s \<Longrightarrow> store_inv (fields_changed fs s)"
  by (simp add: store_inv_def fields_changed_def)

lemma store_inv_mergedPag_changed: "store_inv s \<Longrightarrow> store_inv (mergedPag_changed s)"
  by (simp add: mergedPag_changed_def store_inv_next within_cap_0)

lemma store_inv_clearSelected: "store_inv s \<Longrightarrow> store_inv (clearSelected s)"
  by (simp add: clearSelected_def store_inv_next within_cap_0)


lemma findIndex_mem: "findIndex (\<lambda>f. f = x) xs = - 1 \<longleftrightarrow> x \<notin> set xs"
  by (auto simp: findIndex_none)

lemma toggle_SINGLE:
  "graphNodeSelectionMode s = SINGLE \<Longrightarrow>
   toggleNodeSelected x s =
     (if map_option fid (selectedField s) = Some x
      then (Some False, selectedFidArr_next [] s)
      else (Some True, selectedFidArr_next [x] s))"
  by (simp add: toggleNodeSelected_def)

lemma toggle_DOUBLE:
  "graphNodeSelectionMode s = DOUBLE \<Longrightarrow>
   toggleNodeSelected x s =
     (if x \<in> fid ` set (selectedNodes s) then
        (Some False,
         selectedFidArr_next (filter (\<lambda>i. i \<noteq> x) (map fid (selectedNodes s))) s)
      else if selectedNodes s = [] then (Some True, selectedFidArr_next [x] s)
      else if length (selectedNodes s) \<noteq> 1 then (Some False, s)
      else (Some False, selectedFidArr_next [fid (hd (selectedNodes s)), x] s))"
  by (auto simp: toggleNodeSelected_def selectedFieldGroup_def list_ex_iff filter_map comp_def
        hd_conv_nth)

lemma toggle_MULTIPLE:
  "graphNodeSelectionMode s = MULTIPLE \<Longrightarrow>
   toggleNodeSelected x s =
     (None,
      selectedFidArr_next
        (if x \<in> fid ` set (selectedNodes s)
         then splice1 (findIndex (\<lambda>f. f = x) (map fid (selectedNodes s)))
                (map fid (selectedNodes s))
         else map fid (selectedNodes s) @ [x]) s)"
  by (simp add: toggleNodeSelected_def selectedFieldGroup_def Let_def findIndex_mem)

lemma toggle_other:
  "graphNodeSelectionMode s \<noteq> SINGLE \<Longrightarrow> graphNodeSelectionMode s \<noteq> DOUBLE \<Longrightarrow>
   graphNodeSelectionMode s \<noteq> MULTIPLE \<Longrightarrow> toggleNodeSelected x s = (None, s)"
  by (simp add: toggleNodeSelected_def)

lemma store_inv_toggle: 
  assumes "store_inv s"
  shows "store_inv (snd (toggleNodeSelected x s))"
proof -
  let ?g = "selectedNodes s"
  from assms have d: "distinct (map fid ?g)"
    and c: "within_cap (graphNodeSelectionMode s) (length ?g)"
    by (simp_all add: store_inv_def)
  consider (S) "graphNodeSelectionMode s = SINGLE" | (D) "graphNodeSelectionMode s = DOUBLE"
    | (M) "graphNodeSelectionMode s = MULTIPLE"
    | (O) "graphNodeSelectionMode s \<noteq> SINGLE" "graphNodeSelectionMode s \<noteq> DOUBLE"
          "graphNodeSelectionMode s \<noteq> MULTIPLE"
    by blast
  then show ?thesis
  proof cases
    case S
    with assms show ?thesis
      by (simp add: toggle_SINGLE store_inv_next within_cap_simps)
  next
    case D
    have "length (filter (\<lambda>i. i \<noteq> x) (map fid ?g)) \<le> length ?g"
      using length_filter_le [of _ "map fid ?g"] by simp
    with c have "within_cap (graphNodeSelectionMode s) (length (filter (\<lambda>i. i \<noteq> x) (map fid ?g)))"
      by (rule within_cap_mono)
    moreover have "x \<notin> fid ` set ?g \<Longrightarrow> ?g \<noteq> [] \<Longrightarrow> fid (hd ?g) \<noteq> x"
      by (cases ?g) auto
    ultimately show ?thesis using assms d D
      by (simp add: toggle_DOUBLE store_inv_next within_cap_simps)
  next
    case M
    with assms d show ?thesis
      by (simp add: toggle_MULTIPLE store_inv_next within_cap_simps distinct_splice1)
  next
    case O
    with assms show ?thesis by (simp add: toggle_other)
  qed
qed

lemma select_SINGLE:
  "graphNodeSelectionMode s = SINGLE \<Longrightarrow>
   selectNode x s =
     (if map_option fid (selectedField s) = Some x
      then (Some False, selectedFidArr_next [] s)
      else (Some True, selectedFidArr_next [x] s))"
  by (simp add: selectNode_def)

lemma select_MULTIPLE:
  "graphNodeSelectionMode s = MULTIPLE \<Longrightarrow>
   selectNode x s =
     (None,
      selectedFidArr_next
        (if x \<in> fid ` set (selectedNodes s) then map fid (selectedNodes s)
         else map fid (selectedNodes s) @ [x]) s)"
  by (simp add: selectNode_def selectedFieldGroup_def Let_def findIndex_mem)

lemma select_other:
  "graphNodeSelectionMode s \<noteq> SINGLE \<Longrightarrow> graphNodeSelectionMode s \<noteq> MULTIPLE \<Longrightarrow>
   selectNode x s = (None, s)"
  by (simp add: selectNode_def)

lemma store_inv_select:
  assumes "store_inv s"
  shows "store_inv (snd (selectNode x s))"
proof -
  from assms have d: "distinct (map fid (selectedNodes s))"
    by (simp add: store_inv_def)
  consider (S) "graphNodeSelectionMode s = SINGLE" | (M) "graphNodeSelectionMode s = MULTIPLE"
    | (O) "graphNodeSelectionMode s \<noteq> SINGLE" "graphNodeSelectionMode s \<noteq> MULTIPLE"
    by blast
  then show ?thesis
  proof cases
    case S
    with assms show ?thesis
      by (simp add: select_SINGLE store_inv_next within_cap_simps)
  next
    case M
    with assms d show ?thesis
      by (simp add: select_MULTIPLE store_inv_next within_cap_simps)
  next
    case O
    with assms show ?thesis by (simp add: select_other)
  qed
qed

lemma store_inv_exec: "store_inv s \<Longrightarrow> store_inv (exec c s)"
  by (cases c)
     (simp_all add: store_inv_setExplorationKey setNodeSelectionMode_def store_inv_assign
        store_inv_toggle store_inv_select store_inv_clearSelected store_inv_fields_changed
        store_inv_mergedPag_changed)

lemma store_inv_run: "store_inv s \<Longrightarrow> store_inv (run cs s)"
  unfolding run_def by (induction cs arbitrary: s) (simp_all add: store_inv_exec)

lemma store_inv_reachable: "store_inv (run cs (CausalViewStore_init emitted))"
  by (rule store_inv_run) (rule store_inv_init)

lemma removeAll_reactions:
  "removeAll SelectionModeReaction
     (removeAll ExplorationKeyReaction (removeAll MergedPagReaction rs)) = []"
proof (induction rs)
  case Nil
  show ?case by simp
next
  case (Cons r rs)
  then show ?case by (cases r) simp_all
qed

lemma removeAll_subscriptions: "removeAll SelectedFidArrSubscription us = []"
proof (induction us)
  case Nil
  show ?case by simp
next
  case (Cons u us)
  then show ?case by (cases u) simp
qed








text \<open>
  The default renderer on an entity of entropy \<open>+0\<close>, for an engine that computes the
  thirteen results listed: the stroke is \<open>rgb(95,149,255)\<close>.
\<close>

lemma defaultOnRenderNode_zero_entropy:
  assumes "num_mul M num_neg_1 0 = num_neg_0" "num_div M num_neg_0 num_2 = num_neg_0"
    and "Math_exp M num_neg_0 = num_1" "num_add M num_1 num_1 = num_2"
    and "num_div M num_2 num_2 = num_1" "num_sub M num_1 num_1 = 0"
    and "num_sub M num_1 0 = num_1"
    and "num_mul M num_95 num_1 = num_95" "num_mul M num_149 num_1 = num_149"
    and "Math_floor M num_95 = num_95" "Math_floor M num_149 = num_149"
    and "num_toString M num_95 = ''95''" "num_toString M num_149 = ''149''"
  shows "defaultOnRenderNode M \<lparr>fid = x, features = Some \<lparr>entropy = Some 0\<rparr>\<rparr>
    = Inr (Some \<lparr>stroke = ''rgb(95,149,255)''\<rparr>)"
  using assms by (simp add: defaultOnRenderNode_def)

section \<open>The values written to the selection channel\<close>

text \<open>
  C1. Whatever sequence of commands is run from the initial state (the five public
  selection operations \<open>setExplorationKey\<close>, \<open>setNodeSelectionMode\<close>,
  \<open>toggleNodeSelected\<close>, \<open>selectNode\<close>, \<open>clearSelected\<close>, and also new snapshots of the
  fields and changes of the merged model), every identifier sequence written to
  \<open>selectedFidArr$\<close> has no duplicate, and its length is within the cap of the selection
  mode that was active when it was written.
\<close>

theorem written_sequences_distinct_and_capped:
  "list_all (\<lambda>w. distinct (snd w) \<and> within_cap (fst w) (length (snd w)))
     (written (run cs (CausalViewStore_init emitted)))"
  using store_inv_reachable [of cs emitted] by (simp add: store_inv_def writes_ok_def)

text \<open>
  A run through all three selecting modes: the written values are computed, and the
  theorem applies to them.
\<close>

theorem written_sequences_distinct_and_capped_witness:
  "written (example_store
       [ToggleNodeSelected ''a'', ToggleNodeSelected ''b'', ToggleNodeSelected ''c'',
        ToggleNodeSelected ''a'', SetExplorationKey HYPOTHESIS_TEST, ToggleNodeSelected ''a'',
        ToggleNodeSelected ''b'', SelectNode ''b'', SetNodeSelectionMode SINGLE,
        ToggleNodeSelected ''b'', ClearSelected])
     = [(MULTIPLE, [''a'']), (MULTIPLE, [''a'', ''b'']), (MULTIPLE, [''a'', ''b'', ''c'']),
        (MULTIPLE, [''b'', ''c'']), (DOUBLE, [''c'', ''a'']), (SINGLE, [''b'']), (SINGLE, [])] \<and>
   list_all (\<lambda>w. distinct (snd w) \<and> within_cap (fst w) (length (snd w)))
     (written (example_store
       [ToggleNodeSelected ''a'', ToggleNodeSelected ''b'', ToggleNodeSelected ''c'',
        ToggleNodeSelected ''a'', SetExplorationKey HYPOTHESIS_TEST, ToggleNodeSelected ''a'',
        ToggleNodeSelected ''b'', SelectNode ''b'', SetNodeSelectionMode SINGLE,
        ToggleNodeSelected ''b'', ClearSelected]))"
proof -
  have "written (example_store
       [ToggleNodeSelected ''a'', ToggleNodeSelected ''b'', ToggleNodeSelected ''c'',
        ToggleNodeSelected ''a'', SetExplorationKey HYPOTHESIS_TEST, ToggleNodeSelected ''a'',
        ToggleNodeSelected ''b'', SelectNode ''b'', SetNodeSelectionMode SINGLE,
        ToggleNodeSelected ''b'', ClearSelected])
     = [(MULTIPLE, [''a'']), (MULTIPLE, [''a'', ''b'']), (MULTIPLE, [''a'', ''b'', ''c'']),
        (MULTIPLE, [''b'', ''c'']), (DOUBLE, [''c'', ''a'']), (SINGLE, [''b'']), (SINGLE, [])]"
    by code_simp
  then show ?thesis
    using written_sequences_distinct_and_capped unfolding example_store_def by blast
qed

section \<open>Toggling in mode DOUBLE\<close>

text \<open>
  C2. In mode \<open>DOUBLE\<close>, with a group of at most two nodes, \<open>toggleNodeSelected x\<close>
  \<^item> writes the identifiers of the group without \<open>x\<close> and returns \<open>false\<close>, when \<open>x\<close> is in
    the group;
  \<^item> writes \<open>[x]\<close> and returns \<open>true\<close>, when the group is empty;
  \<^item> writes nothing, changes nothing and returns \<open>false\<close>, when the group has two nodes
    and \<open>x\<close> is not one of them;
  \<^item> writes the pair of the node of the group and \<open>x\<close>, and returns \<open>false\<close>, when the
    group has one node and \<open>x\<close> is not it.
\<close>

theorem toggle_in_DOUBLE_mode:
  assumes "graphNodeSelectionMode s = DOUBLE" and "length (selectedFieldGroup s) \<le> 2"
  shows
    "(x \<in> set (map fid (selectedFieldGroup s)) \<longrightarrow>
        fst (toggleNodeSelected x s) = Some False \<and>
        written (snd (toggleNodeSelected x s)) =
          written s @ [(DOUBLE, filter (\<lambda>i. i \<noteq> x) (map fid (selectedFieldGroup s)))]) \<and>
     (x \<notin> set (map fid (selectedFieldGroup s)) \<and> selectedFieldGroup s = [] \<longrightarrow>
        fst (toggleNodeSelected x s) = Some True \<and>
        written (snd (toggleNodeSelected x s)) = written s @ [(DOUBLE, [x])]) \<and>
     (x \<notin> set (map fid (selectedFieldGroup s)) \<and> length (selectedFieldGroup s) = 2 \<longrightarrow>
        toggleNodeSelected x s = (Some False, s)) \<and>
     (\<forall>e. x \<notin> set (map fid (selectedFieldGroup s)) \<and> selectedFieldGroup s = [e] \<longrightarrow>
        fst (toggleNodeSelected x s) = Some False \<and>
        written (snd (toggleNodeSelected x s)) = written s @ [(DOUBLE, [fid e, x])])"
  using assms
  by (auto simp: toggle_DOUBLE selectedFieldGroup_def next_simps)

text \<open>Each of the four cases, on stores reached from the initial state.\<close>

theorem toggle_in_DOUBLE_mode_witness:
  "graphNodeSelectionMode double_pair = DOUBLE \<and>
   map fid (selectedFieldGroup double_pair) = [''a'', ''b''] \<and>
   fst (toggleNodeSelected ''a'' double_pair) = Some False \<and>
   written (snd (toggleNodeSelected ''a'' double_pair)) =
     written double_pair @ [(DOUBLE, [''b''])] \<and>
   toggleNodeSelected ''c'' double_pair = (Some False, double_pair) \<and>
   graphNodeSelectionMode double_empty = DOUBLE \<and>
   selectedFieldGroup double_empty = [] \<and>
   fst (toggleNodeSelected ''a'' double_empty) = Some True \<and>
   written (snd (toggleNodeSelected ''a'' double_empty)) =
     written double_empty @ [(DOUBLE, [''a''])] \<and>
   graphNodeSelectionMode double_one = DOUBLE \<and>
   selectedFieldGroup double_one = [field_a] \<and>
   fst (toggleNodeSelected ''b'' double_one) = Some False \<and>
   written (snd (toggleNodeSelected ''b'' double_one)) =
     written double_one @ [(DOUBLE, [''a'', ''b''])]"
proof -
  have p: "graphNodeSelectionMode double_pair = DOUBLE"
    "length (selectedFieldGroup double_pair) \<le> 2"
    by code_simp+
  have pg: "map fid (selectedFieldGroup double_pair) = [''a'', ''b'']"
    by code_simp
  have e: "graphNodeSelectionMode double_empty = DOUBLE"
    "length (selectedFieldGroup double_empty) \<le> 2"
    by code_simp+
  have eg: "selectedFieldGroup double_empty = []"
    by code_simp
  have o: "graphNodeSelectionMode double_one = DOUBLE"
    "length (selectedFieldGroup double_one) \<le> 2"
    by code_simp+
  have og: "selectedFieldGroup double_one = [field_a]"
    by code_simp
  have fa: "fid field_a = ''a''"
    by (simp add: field_a_def)
  from toggle_in_DOUBLE_mode [OF p, of "''a''"] pg
  have 1: "fst (toggleNodeSelected ''a'' double_pair) = Some False \<and>
      written (snd (toggleNodeSelected ''a'' double_pair)) =
        written double_pair @ [(DOUBLE, [''b''])]"
    by simp
  have pl: "length (selectedFieldGroup double_pair) = 2"
    by code_simp
  from toggle_in_DOUBLE_mode [OF p, of "''c''"] pg pl
  have 2: "toggleNodeSelected ''c'' double_pair = (Some False, double_pair)"
    by simp
  from toggle_in_DOUBLE_mode [OF e, of "''a''"] eg
  have 3: "fst (toggleNodeSelected ''a'' double_empty) = Some True \<and>
      written (snd (toggleNodeSelected ''a'' double_empty)) =
        written double_empty @ [(DOUBLE, [''a''])]"
    by simp
  from toggle_in_DOUBLE_mode [OF o, of "''b''"] og fa
  have 4: "fst (toggleNodeSelected ''b'' double_one) = Some False \<and>
      written (snd (toggleNodeSelected ''b'' double_one)) =
        written double_one @ [(DOUBLE, [''a'', ''b''])]"
    by simp
  from p pg e eg o og 1 2 3 4 show ?thesis by blast
qed

section \<open>Changing the selection mode\<close>

text \<open>
  C3. When \<open>setNodeSelectionMode\<close> changes the mode (the new mode differs from the
  current one, and the reaction is live), the selection is cut down to its last node if
  the new mode is \<open>SINGLE\<close> or \<open>DOUBLE\<close>, is left as it is if the new mode is
  \<open>MULTIPLE\<close>, and is emptied for \<open>NONE\<close> and for every string outside the enumeration.
\<close>

theorem mode_change_clamps_selection:
  assumes "m \<noteq> graphNodeSelectionMode s" and "SelectionModeReaction \<in> set (live_reactions s)"
  shows
    "graphNodeSelectionMode (setNodeSelectionMode m s) = m \<and>
     selectedFieldGroup (setNodeSelectionMode m s) =
       (if m = SINGLE \<or> m = DOUBLE then
          (if selectedFieldGroup s = [] then [] else [last (selectedFieldGroup s)])
        else if m = MULTIPLE then selectedFieldGroup s
        else [])"
  using assms
  by (simp add: setNodeSelectionMode_def assign_graphNodeSelectionMode_def
        on_graphNodeSelectionMode_def selectedFieldGroup_def slice_from_last)

text \<open>
  From \<open>MULTIPLE\<close> with the nodes a, b, c selected: \<open>SINGLE\<close> and \<open>DOUBLE\<close> keep c,
  \<open>NONE\<close> and an unknown mode keep nothing; from \<open>SINGLE\<close> with b selected, \<open>MULTIPLE\<close>
  keeps b.
\<close>

theorem mode_change_clamps_selection_witness:
  "graphNodeSelectionMode multiple_three = MULTIPLE \<and>
   selectedFieldGroup multiple_three = [field_a, field_b, field_c] \<and>
   selectedFieldGroup (setNodeSelectionMode SINGLE multiple_three) = [field_c] \<and>
   selectedFieldGroup (setNodeSelectionMode DOUBLE multiple_three) = [field_c] \<and>
   selectedFieldGroup (setNodeSelectionMode NONE multiple_three) = [] \<and>
   selectedFieldGroup (setNodeSelectionMode ''other'' multiple_three) = [] \<and>
   selectedFieldGroup (setNodeSelectionMode MULTIPLE single_b) = [field_b]"
proof -
  have m: "graphNodeSelectionMode multiple_three = MULTIPLE"
    and l: "SelectionModeReaction \<in> set (live_reactions multiple_three)"
    and g: "selectedFieldGroup multiple_three = [field_a, field_b, field_c]"
    by code_simp+
  have m': "graphNodeSelectionMode single_b = SINGLE"
    and l': "SelectionModeReaction \<in> set (live_reactions single_b)"
    and g': "selectedFieldGroup single_b = [field_b]"
    by code_simp+
  have d: "''other'' \<noteq> SINGLE" "''other'' \<noteq> DOUBLE" "''other'' \<noteq> MULTIPLE"
    by (simp_all add: NodeSelectionMode_defs)
  have 1: "selectedFieldGroup (setNodeSelectionMode SINGLE multiple_three) = [field_c]"
    using mode_change_clamps_selection [OF _ l, of SINGLE] m g by simp
  have 2: "selectedFieldGroup (setNodeSelectionMode DOUBLE multiple_three) = [field_c]"
    using mode_change_clamps_selection [OF _ l, of DOUBLE] m g by simp
  have 3: "selectedFieldGroup (setNodeSelectionMode NONE multiple_three) = []"
    using mode_change_clamps_selection [OF _ l, of NONE] m g by simp
  have 4: "selectedFieldGroup (setNodeSelectionMode ''other'' multiple_three) = []"
    using mode_change_clamps_selection [OF _ l, of "''other''"] m g d by simp
  have 5: "selectedFieldGroup (setNodeSelectionMode MULTIPLE single_b) = [field_b]"
    using mode_change_clamps_selection [OF _ l', of MULTIPLE] m' g' by simp
  from m g 1 2 3 4 5 show ?thesis by blast
qed

section \<open>A write and the snapshot of the fields\<close>



section \<open>The exploration key and the selection mode\<close>

text \<open>
  C5, as the code has it. While the reaction on the exploration key is live,
  \<open>setExplorationKey k\<close> sets the key to \<open>k\<close>; when \<open>k\<close> differs from the current key, the
  selection mode becomes \<open>SINGLE\<close> for \<open>CAUSAL_INSIGHT\<close> and \<open>PREDICT\<close>, \<open>MULTIPLE\<close> for
  \<open>AUTO_VIS\<close> and \<open>CROSS_FILTER\<close>, \<open>DOUBLE\<close> for \<open>HYPOTHESIS_TEST\<close>, and \<open>NONE\<close> for every
  other value; when \<open>k\<close> is the current key, the mode stays what it is.
\<close>

theorem exploration_key_table:
  assumes "ExplorationKeyReaction \<in> set (live_reactions s)"
  shows
    "explorationKey (setExplorationKey k s) = k \<and>
     graphNodeSelectionMode (setExplorationKey k s) =
       (if k = explorationKey s then graphNodeSelectionMode s
        else if k = CAUSAL_INSIGHT \<or> k = PREDICT then SINGLE
        else if k = AUTO_VIS \<or> k = CROSS_FILTER then MULTIPLE
        else if k = HYPOTHESIS_TEST then DOUBLE
        else NONE)"
proof -
  have a: "graphNodeSelectionMode (assign_graphNodeSelectionMode m t) = m"
    and b: "explorationKey (assign_graphNodeSelectionMode m t) = explorationKey t" for m t
    by (simp_all add: assign_graphNodeSelectionMode_def on_graphNodeSelectionMode_def Let_def)
  from assms show ?thesis
    by (simp add: setExplorationKey_def on_explorationKey_def a b)
qed

text \<open>
  The table on three keys, and the key set to its current value after
  \<open>setNodeSelectionMode\<close>.
\<close>

theorem exploration_key_table_witness:
  "ExplorationKeyReaction \<in> set (live_reactions multiple_three) \<and>
   explorationKey multiple_three = AUTO_VIS \<and>
   graphNodeSelectionMode (setExplorationKey HYPOTHESIS_TEST multiple_three) = DOUBLE \<and>
   graphNodeSelectionMode (setExplorationKey PREDICT multiple_three) = SINGLE \<and>
   graphNodeSelectionMode (setExplorationKey ''Unknown'' multiple_three) = NONE \<and>
   graphNodeSelectionMode (setExplorationKey AUTO_VIS (setNodeSelectionMode SINGLE multiple_three))
     = SINGLE"
proof -
  have l: "ExplorationKeyReaction \<in> set (live_reactions multiple_three)"
    and k: "explorationKey multiple_three = AUTO_VIS"
    by code_simp+
  have l': "ExplorationKeyReaction \<in> set (live_reactions (setNodeSelectionMode SINGLE multiple_three))"
    and k': "explorationKey (setNodeSelectionMode SINGLE multiple_three) = AUTO_VIS"
    and m': "graphNodeSelectionMode (setNodeSelectionMode SINGLE multiple_three) = SINGLE"
    by code_simp+
  have 1: "graphNodeSelectionMode (setExplorationKey HYPOTHESIS_TEST multiple_three) = DOUBLE"
    using exploration_key_table [OF l, of HYPOTHESIS_TEST] k by (simp add: ExplorationKey_defs)
  have 2: "graphNodeSelectionMode (setExplorationKey PREDICT multiple_three) = SINGLE"
    using exploration_key_table [OF l, of PREDICT] k by (simp add: ExplorationKey_defs)
  have 3: "graphNodeSelectionMode (setExplorationKey ''Unknown'' multiple_three) = NONE"
    using exploration_key_table [OF l, of "''Unknown''"] k by (simp add: ExplorationKey_defs)
  have 4: "graphNodeSelectionMode
      (setExplorationKey AUTO_VIS (setNodeSelectionMode SINGLE multiple_three)) = SINGLE"
    using exploration_key_table [OF l', of AUTO_VIS] k' m' by simp
  from l k 1 2 3 4 show ?thesis by blast
qed

text \<open>
  C5 as it is stated asks for the mode of the table after every \<open>setExplorationKey\<close>.
  After \<open>setNodeSelectionMode SINGLE\<close> in the initial store, \<open>setExplorationKey AUTO_VIS\<close>
  does not change the key, no reaction runs, and the mode is not \<open>MULTIPLE\<close>.
\<close>

theorem exploration_key_table_counterexample:
  "graphNodeSelectionMode
     (setExplorationKey AUTO_VIS (setNodeSelectionMode SINGLE (CausalViewStore_init None)))
   \<noteq> MULTIPLE"
  by code_simp

section \<open>Toggling twice in mode SINGLE\<close>

text \<open>
  C6, as the code has it. In a store reached from the initial state, in mode \<open>SINGLE\<close>,
  if \<open>x\<close> is not the identifier of the selected node (in particular if nothing is
  selected), then \<open>toggleNodeSelected x\<close> twice leaves the selection empty.
\<close>

theorem toggle_twice_in_SINGLE_mode:
  assumes "s = run cs (CausalViewStore_init emitted)"
    and "graphNodeSelectionMode s = SINGLE"
    and "map_option fid (selectedField s) \<noteq> Some x"
  shows "selectedFieldGroup (snd (toggleNodeSelected x (snd (toggleNodeSelected x s)))) = []"
proof -
  let ?s1 = "selectedFidArr_next [x] s"
  have "store_inv s"
    unfolding assms(1) by (rule store_inv_reachable)
  then have live: "SelectedFidArrSubscription \<in> set (live_subscriptions s)"
    and none: "fields_latest s = None \<Longrightarrow> selectedNodes s = []"
    by (simp_all add: store_inv_def)
  have s1: "snd (toggleNodeSelected x s) = ?s1"
    using assms(2,3) by (auto simp: toggle_SINGLE)
  have m1: "graphNodeSelectionMode ?s1 = SINGLE"
    using assms(2) by (simp add: next_simps)
  show ?thesis
  proof (cases "fields_latest s")
    case None
    with live none show ?thesis
      by (simp add: s1 toggle_SINGLE [OF m1] selectedFieldGroup_def selectedField_def
            next_selectedNodes next_simps)
  next
    case (Some fs)
    show ?thesis
    proof (cases "find (\<lambda>which. fid which = x) fs")
      case None
      with Some live show ?thesis
        by (simp add: s1 toggle_SINGLE [OF m1] selectedFieldGroup_def selectedField_def
              next_selectedNodes next_simps)
    next
      case (Some f)
      then have "fid f = x" by (rule find_fid)
      with Some \<open>fields_latest s = Some fs\<close> live show ?thesis
        by (simp add: s1 toggle_SINGLE [OF m1] selectedFieldGroup_def selectedField_def
              next_selectedNodes next_simps)
    qed
  qed
qed

text \<open>With b selected, toggling a selects a, and toggling a again selects nothing.\<close>

theorem toggle_twice_in_SINGLE_mode_witness:
  "graphNodeSelectionMode single_b = SINGLE \<and>
   map_option fid (selectedField single_b) = Some ''b'' \<and>
   selectedFieldGroup (snd (toggleNodeSelected ''a'' single_b)) = [field_a] \<and>
   selectedFieldGroup (snd (toggleNodeSelected ''a'' (snd (toggleNodeSelected ''a'' single_b))))
     = []"
proof -
  have r: "single_b =
      run [SetNodeSelectionMode SINGLE, ToggleNodeSelected ''b'']
        (CausalViewStore_init (Some [field_a, field_b, field_c]))"
    by (simp add: single_b_def example_store_def)
  have m: "graphNodeSelectionMode single_b = SINGLE"
    and f: "map_option fid (selectedField single_b) = Some ''b''"
    and g: "selectedFieldGroup (snd (toggleNodeSelected ''a'' single_b)) = [field_a]"
    by code_simp+
  have n: "map_option fid (selectedField single_b) \<noteq> Some ''a''"
    by code_simp
  from toggle_twice_in_SINGLE_mode [OF r m n] m f g show ?thesis by blast
qed

text \<open>
  C6 as it is stated covers every reachable store. With a selected, toggling a deselects
  it and toggling a again selects it: the selection is not empty.
\<close>

theorem toggle_twice_in_SINGLE_mode_counterexample:
  "graphNodeSelectionMode (example_store [SetNodeSelectionMode SINGLE, ToggleNodeSelected ''a''])
     = SINGLE \<and>
   selectedFieldGroup
     (snd (toggleNodeSelected ''a''
        (snd (toggleNodeSelected ''a''
           (example_store [SetNodeSelectionMode SINGLE, ToggleNodeSelected ''a''])))))
     = [field_a]"
  by code_simp

section \<open>Resolution of the written identifiers\<close>

text \<open>
  C7. With a live subscription and a snapshot \<open>fs\<close> of the fields, a write of \<open>ids\<close> sets
  the selection to the fields found for the identifiers, in the order of \<open>ids\<close> (for each
  identifier the first field of \<open>fs\<close> with that \<open>fid\<close>); the identifiers of the selection
  are those of \<open>ids\<close> that occur in \<open>fs\<close>; every other identifier is left out and one
  warning is printed for it. The write is a total function: nothing is thrown.
\<close>

theorem resolution_of_written_ids:
  assumes "SelectedFidArrSubscription \<in> set (live_subscriptions s)"
    and "fields_latest s = Some fs"
  shows
    "selectedFieldGroup (selectedFidArr_next ids s) =
       List.map_filter (\<lambda>x. find (\<lambda>which. fid which = x) fs) ids \<and>
     map fid (selectedFieldGroup (selectedFidArr_next ids s)) =
       filter (\<lambda>x. x \<in> fid ` set fs) ids \<and>
     console (selectedFidArr_next ids s) =
       console s @ map (\<lambda>x. (warning_message x, fs)) (filter (\<lambda>x. x \<notin> fid ` set fs) ids)"
proof -
  have "(find (\<lambda>which. fid which = x) fs = None) = (x \<notin> fid ` set fs)" for x
    by (auto simp: find_None_iff)
  with assms show ?thesis
    by (simp add: selectedFieldGroup_def next_selectedNodes next_console map_fid_resolved)
qed

text \<open>The identifiers c, zz, a against the fields a, b, c.\<close>

theorem resolution_of_written_ids_witness:
  "fields_latest multiple_three = Some [field_a, field_b, field_c] \<and>
   selectedFieldGroup (selectedFidArr_next [''c'', ''zz'', ''a''] multiple_three)
     = [field_c, field_a] \<and>
   console (selectedFidArr_next [''c'', ''zz'', ''a''] multiple_three)
     = [(warning_message ''zz'', [field_a, field_b, field_c])]"
proof -
  have l: "SelectedFidArrSubscription \<in> set (live_subscriptions multiple_three)"
    and f: "fields_latest multiple_three = Some [field_a, field_b, field_c]"
    and c: "console multiple_three = []"
    by code_simp+
  have 1: "List.map_filter (\<lambda>x. find (\<lambda>which. fid which = x) [field_a, field_b, field_c])
      [''c'', ''zz'', ''a''] = [field_c, field_a]"
    by code_simp
  have 2: "filter (\<lambda>x. x \<notin> fid ` set [field_a, field_b, field_c]) [''c'', ''zz'', ''a'']
      = [''zz'']"
    by code_simp
  from resolution_of_written_ids [OF l f, of "[''c'', ''zz'', ''a'']"] f
  show ?thesis unfolding 1 2 c by simp
qed

section \<open>A change of the merged model\<close>

text \<open>
  C8. In every store reached from the initial state, a change of
  \<open>causalStore.model.mergedPag\<close> writes the empty sequence to \<open>selectedFidArr$\<close>, and the
  selection is empty afterwards, whatever the mode and the selection were.
\<close>

theorem model_change_resets_selection:
  "selectedFieldGroup (mergedPag_changed (run cs (CausalViewStore_init emitted))) = [] \<and>
   written (mergedPag_changed (run cs (CausalViewStore_init emitted))) =
     written (run cs (CausalViewStore_init emitted)) @
       [(graphNodeSelectionMode (run cs (CausalViewStore_init emitted)), [])]"
proof -
  let ?s = "run cs (CausalViewStore_init emitted)"
  have "store_inv ?s" by (rule store_inv_reachable)
  then show ?thesis
    by (simp add: store_inv_def mergedPag_changed_def selectedFieldGroup_def next_simps
          next_selectedNodes split: option.split)
qed

text \<open>In the modes \<open>MULTIPLE\<close>, \<open>DOUBLE\<close> and \<open>SINGLE\<close>, with nodes selected.\<close>

theorem model_change_resets_selection_witness:
  "selectedFieldGroup multiple_three = [field_a, field_b, field_c] \<and>
   selectedFieldGroup (mergedPag_changed multiple_three) = [] \<and>
   selectedFieldGroup (mergedPag_changed double_pair) = [] \<and>
   selectedFieldGroup (mergedPag_changed single_b) = []"
proof -
  have "selectedFieldGroup multiple_three = [field_a, field_b, field_c]"
    by code_simp
  then show ?thesis
    using model_change_resets_selection
    unfolding multiple_three_def double_pair_def single_b_def example_store_def by blast
qed

section \<open>Teardown\<close>

text \<open>
  C9. \<open>destroy\<close> disposes the three reactions, then unsubscribes the subscription, then
  resets the two listener lists, in this order; afterwards no reaction and no
  subscription is live and both listener lists are empty.
\<close>

theorem destroy_order:
  "teardown (destroy s) =
     teardown s @
       [Dispose MergedPagReaction, Dispose ExplorationKeyReaction,
        Dispose SelectionModeReaction, Unsubscribe SelectedFidArrSubscription,
        ResetListeners nodeClick, ResetListeners nodeDoubleClick] \<and>
   live_reactions (destroy s) = [] \<and>
   live_subscriptions (destroy s) = [] \<and>
   listeners (destroy s) nodeClick = [] \<and>
   listeners (destroy s) nodeDoubleClick = []"
  by (simp add: destroy_def mobxReactions_def rxReactions_def listener_keys_def dispose_def
        unsubscribe_def reset_listeners_def removeAll_reactions removeAll_subscriptions)

text \<open>On a store with a listener of each kind.\<close>

theorem destroy_order_witness:
  "listeners with_listeners nodeClick = [1] \<and>
   listeners with_listeners nodeDoubleClick = [2] \<and>
   live_reactions with_listeners = mobxReactions \<and>
   live_subscriptions with_listeners = rxReactions \<and>
   teardown (destroy with_listeners) =
     [Dispose MergedPagReaction, Dispose ExplorationKeyReaction,
      Dispose SelectionModeReaction, Unsubscribe SelectedFidArrSubscription,
      ResetListeners nodeClick, ResetListeners nodeDoubleClick] \<and>
   live_reactions (destroy with_listeners) = [] \<and>
   live_subscriptions (destroy with_listeners) = [] \<and>
   listeners (destroy with_listeners) nodeClick = [] \<and>
   listeners (destroy with_listeners) nodeDoubleClick = []"
proof -
  have "listeners with_listeners nodeClick = [1]"
    "listeners with_listeners nodeDoubleClick = [2]"
    "live_reactions with_listeners = mobxReactions"
    "live_subscriptions with_listeners = rxReactions"
    "teardown with_listeners = []"
    by code_simp+
  with destroy_order [of with_listeners] show ?thesis by simp
qed

section \<open>Initial state\<close>

text \<open>
  C10. A newly constructed store has exploration key \<open>AUTO_VIS\<close>, selection mode
  \<open>MULTIPLE\<close>, an empty selection (\<open>selectedFieldGroup\<close> is empty and \<open>selectedField\<close> is
  \<open>null\<close>), layout \<open>FORCE\<close>, and a renderer installed that computes from the entropy of
  the entity: called on an entity, with the operations \<open>M\<close> of the engine, it throws a
  \<open>TypeError\<close> if the entity has no \<open>features\<close>, and otherwise returns the stroke
  \<open>rgb(r,g,255)\<close> with \<open>r = floor (95 * (1 - v))\<close> and \<open>g = floor (149 * (1 - v))\<close> for
  \<open>v = 2 / (1 + exp (-1 * entropy / 2)) - 1\<close>.
\<close>

theorem initial_state:
  "explorationKey (CausalViewStore_init emitted) = AUTO_VIS \<and>
   graphNodeSelectionMode (CausalViewStore_init emitted) = MULTIPLE \<and>
   selectedFieldGroup (CausalViewStore_init emitted) = [] \<and>
   selectedField (CausalViewStore_init emitted) = None \<and>
   layoutMethod (CausalViewStore_init emitted) = FORCE \<and>
   map_option (\<lambda>render. render M node) (onRenderNode (CausalViewStore_init emitted)) =
     Some (case features node of
             None \<Rightarrow> Inl TypeError
           | Some ft \<Rightarrow>
               (let e = (case entropy ft of None \<Rightarrow> num_NaN | Some n \<Rightarrow> n);
                    v = num_sub M
                          (num_div M num_2
                             (num_add M num_1
                                (Math_exp M (num_div M (num_mul M num_neg_1 e) num_2))))
                          num_1;
                    r = num_toString M (Math_floor M (num_mul M num_95 (num_sub M num_1 v)));
                    g = num_toString M (Math_floor M (num_mul M num_149 (num_sub M num_1 v)))
                in Inr (Some \<lparr>stroke = ''rgb('' @ r @ '','' @ g @ '',255)''\<rparr>)))"
  by (simp add: CausalViewStore_init_def selectedFieldGroup_def selectedField_def
        defaultOnRenderNode_def Let_def split: option.split)

end
